theory Spec2Isabelle
  imports Main "HOL-Library.Multiset"
begin

section \<open>Data model\<close>

text \<open>
  A stage node is a Python object.  The analysis looks at two things only: the identity
  \<^verbatim>\<open>id(dp)\<close> and the class \<^verbatim>\<open>type(dp)\<close>, of which it tells apart
  \<^verbatim>\<open>ShardingRoundRobinDispatcher\<close> (the non-replicable marker) and
  \<^verbatim>\<open>_DummyIterDataPipe\<close> (the placeholder marker).  Neither class defines
  \<^verbatim>\<open>__eq__\<close>, so \<^verbatim>\<open>==\<close> on nodes is identity; on values whose class is
  determined by their identity this is HOL equality.
\<close>

type_synonym ident = nat

datatype dp_type = ShardingRoundRobinDispatcher | DummyIterDataPipe | OtherIterDataPipe

datatype DataPipe = DataPipe (py_id: ident) (py_type: dp_type)

text \<open>
  \<^verbatim>\<open>DataPipeGraph = Dict[int, Tuple[DataPipe, DataPipeGraph]]\<close>: a nested dictionary,
  kept as the list of its items in insertion order, which is the order in which
  \<^verbatim>\<open>.items()\<close> yields them.  A dictionary has no key twice; the functions below
  do not rely on it.  The key of an item is the identity of its node when the graph comes
  from \<^verbatim>\<open>traverse_dps\<close>; the code reads the key and the node separately, and so
  does the model.  A node shared by two parents occurs under both, and a node on a
  reference cycle occurs again in its own predecessor graph.
\<close>

datatype DataPipeGraph = Graph (items: "(ident \<times> DataPipe \<times> DataPipeGraph) list")

type_synonym entry = "ident \<times> DataPipe \<times> DataPipeGraph"

datatype error = AssertionError | KeyError

section \<open>Lowest common ancestor of the non-replicable nodes\<close>

definition is_round_robin_sharding :: "DataPipe \<Rightarrow> bool" where
  "is_round_robin_sharding dp = (py_type dp = ShardingRoundRobinDispatcher)"

text \<open>
  The marking loop of \<^verbatim>\<open>find_lca_non_replicable_dp\<close>.  The helpers
  \<^verbatim>\<open>list_dps\<close> and \<^verbatim>\<open>traverse_dps\<close> are imported from another module and are
  parameters here.
\<close>

definition mark_parents :: "DataPipe list \<Rightarrow> ident set \<Rightarrow> ident set" where
  "mark_parents parent_dps non_replicable_dps =
     fold (\<lambda>par_dp s. insert (py_id par_dp) s) parent_dps non_replicable_dps"

definition mark_step ::
  "(DataPipeGraph \<Rightarrow> DataPipe list) \<Rightarrow> (DataPipe \<Rightarrow> DataPipeGraph)
     \<Rightarrow> DataPipe \<Rightarrow> ident set \<Rightarrow> ident set" where
  "mark_step list_dps traverse_dps dp non_replicable_dps =
     (if py_id dp \<in> non_replicable_dps then non_replicable_dps
      else if is_round_robin_sharding dp
        then mark_parents (list_dps (traverse_dps dp)) non_replicable_dps
      else non_replicable_dps)"

definition mark_non_replicable ::
  "(DataPipeGraph \<Rightarrow> DataPipe list) \<Rightarrow> (DataPipe \<Rightarrow> DataPipeGraph)
     \<Rightarrow> DataPipeGraph \<Rightarrow> ident set" where
  "mark_non_replicable list_dps traverse_dps graph =
     fold (mark_step list_dps traverse_dps) (list_dps graph) {}"

type_synonym lca_memo = "ident \<rightharpoonup> DataPipe option"

text \<open>
  \<^verbatim>\<open>_get_lca_from_graph\<close>, with the dictionary \<^verbatim>\<open>lca_for_subgraph\<close> passed
  in and returned.  \<open>get_lca_parents\<close> is its loop over the items of the predecessor
  graph; it returns the list \<^verbatim>\<open>non_replicable_parents\<close>.
\<close>

fun get_lca_from_graph ::
  "ident set \<Rightarrow> lca_memo \<Rightarrow> ident \<Rightarrow> DataPipe \<Rightarrow> DataPipeGraph
     \<Rightarrow> error + (lca_memo \<times> DataPipe option)"
and get_lca_parents ::
  "ident set \<Rightarrow> lca_memo \<Rightarrow> entry list
     \<Rightarrow> error + (lca_memo \<times> DataPipe list)"
where
  "get_lca_from_graph nr memo root_dp_id root_dp (Graph root_graph) =
     (case memo root_dp_id of
        Some r \<Rightarrow> Inr (memo, r)
      | None \<Rightarrow>
          if root_dp_id \<in> nr then Inr (memo(root_dp_id \<mapsto> Some root_dp), Some root_dp)
          else
            (case get_lca_parents nr (memo(root_dp_id \<mapsto> None)) root_graph of
               Inl e \<Rightarrow> Inl e
             | Inr (memo1, ps) \<Rightarrow>
                 let memo2 =
                   (if length ps > 0 then
                      (if length ps = 1 \<or> (\<forall>dp \<in> set ps. dp = hd ps)
                       then memo1(root_dp_id \<mapsto> Some (hd ps))
                       else memo1(root_dp_id \<mapsto> Some root_dp))
                    else memo1)
                 in (case memo2 root_dp_id of
                       None \<Rightarrow> Inl KeyError
                     | Some r \<Rightarrow> Inr (memo2, r))))"
| "get_lca_parents nr memo [] = Inr (memo, [])"
| "get_lca_parents nr memo ((dp_id, dp, src_graph) # rest) =
     (case get_lca_from_graph nr memo dp_id dp src_graph of
        Inl e \<Rightarrow> Inl e
      | Inr (memo1, res) \<Rightarrow>
          (case get_lca_parents nr memo1 rest of
             Inl e \<Rightarrow> Inl e
           | Inr (memo2, ps) \<Rightarrow>
               Inr (memo2, (case res of None \<Rightarrow> ps | Some r \<Rightarrow> r # ps))))"

definition find_lca_non_replicable_dp ::
  "(DataPipeGraph \<Rightarrow> DataPipe list) \<Rightarrow> (DataPipe \<Rightarrow> DataPipeGraph)
     \<Rightarrow> DataPipeGraph \<Rightarrow> error + DataPipe option" where
  "find_lca_non_replicable_dp list_dps traverse_dps graph =
     (if length (items graph) \<noteq> 1 then Inl AssertionError
      else
        let non_replicable_dps = mark_non_replicable list_dps traverse_dps graph;
            (root_dp_id, root_dp, root_graph) = hd (items graph)
        in (case get_lca_from_graph non_replicable_dps Map.empty root_dp_id root_dp root_graph of
              Inl e \<Rightarrow> Inl e
            | Inr (memo, r) \<Rightarrow> Inr r))"

section \<open>Replicable branches\<close>

type_synonym repl_state = "(ident \<rightharpoonup> bool) \<times> DataPipe list"

text \<open>
  The second loop of \<^verbatim>\<open>_is_replicable_graph\<close>: every direct predecessor whose
  entry in \<^verbatim>\<open>branch_is_replicable\<close> is true is appended to \<^verbatim>\<open>dps\<close>.  The
  subscript raises \<^verbatim>\<open>KeyError\<close> on a key that is not there.
\<close>

fun append_replicable ::
  "(ident \<rightharpoonup> bool) \<Rightarrow> DataPipe list \<Rightarrow> entry list
     \<Rightarrow> error + DataPipe list" where
  "append_replicable memo dps [] = Inr dps"
| "append_replicable memo dps ((dp_id, dp, uu) # rest) =
     (case memo dp_id of
        None \<Rightarrow> Inl KeyError
      | Some b \<Rightarrow> append_replicable memo (if b then dps @ [dp] else dps) rest)"

text \<open>
  \<^verbatim>\<open>_is_replicable_graph\<close>; the state is the pair of the dictionary
  \<^verbatim>\<open>branch_is_replicable\<close> and the result list \<^verbatim>\<open>dps\<close>.
  \<open>visit_parents\<close> is the first loop over the items of the predecessor graph.
\<close>

fun is_replicable_graph ::
  "repl_state \<Rightarrow> ident \<Rightarrow> DataPipe \<Rightarrow> DataPipeGraph \<Rightarrow> error + (repl_state \<times> bool)"
and visit_parents ::
  "repl_state \<Rightarrow> ident \<Rightarrow> entry list \<Rightarrow> error + repl_state"
where
  "is_replicable_graph (memo, dps) root_dp_id root_dp (Graph root_graph) =
     (case memo root_dp_id of
        Some b \<Rightarrow> Inr ((memo, dps), b)
      | None \<Rightarrow>
          if py_type root_dp = DummyIterDataPipe
          then Inr ((memo(root_dp_id \<mapsto> False), dps), False)
          else
            (case visit_parents (memo(root_dp_id \<mapsto> True), dps) root_dp_id root_graph of
               Inl e \<Rightarrow> Inl e
             | Inr (memo1, dps1) \<Rightarrow>
                 (case memo1 root_dp_id of
                    None \<Rightarrow> Inl KeyError
                  | Some b \<Rightarrow>
                      if \<not> b then
                        (case append_replicable memo1 dps1 root_graph of
                           Inl e \<Rightarrow> Inl e
                         | Inr dps2 \<Rightarrow> Inr ((memo1, dps2), b))
                      else Inr ((memo1, dps1), b))))"
| "visit_parents st root_dp_id [] = Inr st"
| "visit_parents st root_dp_id ((dp_id, dp, src_graph) # rest) =
     (case is_replicable_graph st dp_id dp src_graph of
        Inl e \<Rightarrow> Inl e
      | Inr ((memo1, dps1), b) \<Rightarrow>
          visit_parents ((if \<not> b then memo1(root_dp_id \<mapsto> False) else memo1), dps1)
            root_dp_id rest)"

definition find_replicable_branches :: "DataPipeGraph \<Rightarrow> error + DataPipe list" where
  "find_replicable_branches graph =
     (if length (items graph) \<noteq> 1 then Inl AssertionError
      else
        let (root_dp_id, root_dp, root_graph) = hd (items graph)
        in (case is_replicable_graph (Map.empty, []) root_dp_id root_dp root_graph of
              Inl e \<Rightarrow> Inl e
            | Inr ((memo, dps), b) \<Rightarrow> Inr (if b then dps @ [root_dp] else dps)))"

section \<open>The graph model the analysis relies on\<close>

text \<open>
  All entries of a nested dictionary, an entry before the entries of its predecessor graph
  and those before the entries that follow it.
\<close>

fun entries :: "entry list \<Rightarrow> entry list" where
  "entries [] = []"
| "entries ((k, dp, Graph sub) # rest) = (k, dp, Graph sub) # entries sub @ entries rest"

definition all_dps :: "DataPipeGraph \<Rightarrow> DataPipe list" where
  "all_dps graph = map (\<lambda>(k, dp, s). dp) (entries (items graph))"

definition all_keys :: "DataPipeGraph \<Rightarrow> ident list" where
  "all_keys graph = map (\<lambda>(k, dp, s). k) (entries (items graph))"

text \<open>
  Modelled from the spec: the flattening traversal (\<^verbatim>\<open>list_dps\<close>, defined in a
  module that is not part of the analysed file).  The spec gives its contract: the list of
  all reachable nodes, each node once however often it is referenced, deduplicated by
  identity, in no guaranteed order.  The model keeps the first occurrence of each identity.
\<close>

fun first_by_id :: "ident set \<Rightarrow> DataPipe list \<Rightarrow> DataPipe list" where
  "first_by_id seen [] = []"
| "first_by_id seen (dp # dps) =
     (if py_id dp \<in> seen then first_by_id seen dps
      else dp # first_by_id (insert (py_id dp) seen) dps)"

definition flatten_graph :: "DataPipeGraph \<Rightarrow> DataPipe list" where
  "flatten_graph graph = first_by_id {} (all_dps graph)"

text \<open>
  Modelled from the spec: the second traversal primitive (\<^verbatim>\<open>traverse_dps\<close>),
  which for a single node gives its own predecessor graph, the sub-graph of everything the
  node depends on.  In a snapshot this is the graph stored with the node, looked up by the
  node's identity; a node that is not in the snapshot has no predecessors.
\<close>

definition predecessor_graph :: "DataPipeGraph \<Rightarrow> DataPipe \<Rightarrow> DataPipeGraph" where
  "predecessor_graph snapshot dp =
     (case find (\<lambda>(k, d, s). py_id d = py_id dp) (entries (items snapshot)) of
        Some (k, d, s) \<Rightarrow> s
      | None \<Rightarrow> Graph [])"

text \<open>
  The analysis as its caller sees it: \<^verbatim>\<open>find_lca_non_replicable_dp\<close> run with the
  two traversals above over one snapshot.
\<close>

definition compute_cut_point :: "DataPipeGraph \<Rightarrow> error + DataPipe option" where
  "compute_cut_point graph =
     find_lca_non_replicable_dp flatten_graph (predecessor_graph graph) graph"

section \<open>Notions used in the statements\<close>

text \<open>A node has a replicable closure when neither it nor any node of its predecessor
  graph is a placeholder.\<close>

definition placeholder_free :: "DataPipe \<Rightarrow> DataPipeGraph \<Rightarrow> bool" where
  "placeholder_free dp g = (\<forall>d \<in> set (dp # all_dps g). py_type d \<noteq> DummyIterDataPipe)"

text \<open>A memo table of the reduction that holds no node yet.\<close>

definition only_none :: "lca_memo \<Rightarrow> bool" where
  "only_none memo = (\<forall>x r. memo x = Some r \<longrightarrow> r = None)"

text \<open>The second table has no entry \<open>False\<close> that the first has not.\<close>

definition no_new_false :: "(ident \<rightharpoonup> bool) \<Rightarrow> (ident \<rightharpoonup> bool) \<Rightarrow> bool" where
  "no_new_false memo memo' = (\<forall>j. memo' j = Some False \<longrightarrow> memo j = Some False)"



section \<open>Tree-shaped graphs\<close>







section \<open>Notions for the marking step\<close>





section \<open>Dictionaries shared by reference\<close>





section \<open>Example graphs\<close>

definition "ex_plain = Graph [(3, DataPipe 3 OtherIterDataPipe,
   Graph [(1, DataPipe 1 OtherIterDataPipe, Graph []), (2, DataPipe 2 DummyIterDataPipe, Graph [])])]"

definition "ex_merge = Graph [(3, DataPipe 3 ShardingRoundRobinDispatcher,
   Graph [(1, DataPipe 1 OtherIterDataPipe, Graph []), (2, DataPipe 2 OtherIterDataPipe, Graph [])])]"

definition "ex_sibling = Graph [(0, DataPipe 0 OtherIterDataPipe,
   Graph [(1, DataPipe 1 OtherIterDataPipe, Graph [(2, DataPipe 2 DummyIterDataPipe, Graph [])]),
          (3, DataPipe 3 OtherIterDataPipe, Graph [(4, DataPipe 4 OtherIterDataPipe, Graph [])])])]"

definition "ex_sibling2 = Graph [(0, DataPipe 0 OtherIterDataPipe,
   Graph [(3, DataPipe 3 OtherIterDataPipe, Graph [(4, DataPipe 4 OtherIterDataPipe, Graph [])]),
          (1, DataPipe 1 OtherIterDataPipe, Graph [(2, DataPipe 2 DummyIterDataPipe, Graph [])])])]"

definition "ex_cycle = Graph [(0, DataPipe 0 OtherIterDataPipe,
   Graph [(1, DataPipe 1 OtherIterDataPipe,
     Graph [(2, DataPipe 2 ShardingRoundRobinDispatcher,
       Graph [(1, DataPipe 1 OtherIterDataPipe, Graph [])])])])]"

definition "ex_cycle_placeholder = Graph [(0, DataPipe 0 OtherIterDataPipe,
   Graph [(1, DataPipe 1 OtherIterDataPipe,
     Graph [(2, DataPipe 2 OtherIterDataPipe,
       Graph [(1, DataPipe 1 OtherIterDataPipe, Graph []),
              (3, DataPipe 3 DummyIterDataPipe, Graph [])])])])]"

definition "ex_diamond = Graph [(0, DataPipe 0 OtherIterDataPipe,
   Graph [(1, DataPipe 1 OtherIterDataPipe,
            Graph [(3, DataPipe 3 OtherIterDataPipe, Graph []),
                   (4, DataPipe 4 DummyIterDataPipe, Graph [])]),
          (2, DataPipe 2 OtherIterDataPipe,
            Graph [(3, DataPipe 3 OtherIterDataPipe, Graph []),
                   (4, DataPipe 4 DummyIterDataPipe, Graph [])])])]"

definition "ex_chain = Graph [(0, DataPipe 0 OtherIterDataPipe,
   Graph [(1, DataPipe 1 ShardingRoundRobinDispatcher,
     Graph [(2, DataPipe 2 ShardingRoundRobinDispatcher,
       Graph [(3, DataPipe 3 OtherIterDataPipe, Graph [])])])])]"

definition "ex_marker_cycle = Graph [(0, DataPipe 0 OtherIterDataPipe,
   Graph [(1, DataPipe 1 ShardingRoundRobinDispatcher,
     Graph [(2, DataPipe 2 OtherIterDataPipe,
       Graph [(1, DataPipe 1 ShardingRoundRobinDispatcher, Graph [])])])])]"

section \<open>Precondition\<close>

text \<open>
  C9.  A graph that has no entry, or more than one root entry, makes both functions fail
  at once on their assertion; neither returns a list or a node.
\<close>

theorem invalid_graph_shape_fails:
  "length (items graph) \<noteq> 1 \<Longrightarrow>
     find_lca_non_replicable_dp list_dps traverse_dps graph = Inl AssertionError
     \<and> find_replicable_branches graph = Inl AssertionError"
  by (simp add: find_lca_non_replicable_dp_def find_replicable_branches_def)

theorem invalid_graph_shape_fails_witness:
  "length (items (Graph [])) \<noteq> 1
     \<and> find_lca_non_replicable_dp (\<lambda>g. []) (\<lambda>d. Graph []) (Graph []) = Inl AssertionError
     \<and> find_replicable_branches (Graph []) = Inl AssertionError"
  using invalid_graph_shape_fails [of "Graph []" "\<lambda>g. []" "\<lambda>d. Graph []"] by simp

section \<open>Facts about maps and the graph functions\<close>

lemma map_le_upd_same: "m(k \<mapsto> v) \<subseteq>\<^sub>m m' \<Longrightarrow> m' k = Some v"
  by (metis fun_upd_same domIff map_le_def option.distinct(1))

lemma map_le_upd_fresh: "m(k \<mapsto> v) \<subseteq>\<^sub>m m' \<Longrightarrow> m k = None \<Longrightarrow> m \<subseteq>\<^sub>m m'"
  unfolding map_le_def by (metis domIff fun_upd_other)

lemma all_dps_simps [simp]:
  "all_dps (Graph []) = []"
  "all_dps (Graph ((k, dp, g) # rest)) = dp # all_dps g @ all_dps (Graph rest)"
  by (cases g; simp add: all_dps_def)+

lemma all_keys_simps [simp]:
  "all_keys (Graph []) = []"
  "all_keys (Graph ((k, dp, g) # rest)) = k # all_keys g @ all_keys (Graph rest)"
  by (cases g; simp add: all_keys_def)+

lemma placeholder_free_Cons:
  "placeholder_free dp (Graph ((k, d, s) # rest))
     \<longleftrightarrow> placeholder_free d s \<and> placeholder_free dp (Graph rest)"
  by (auto simp: placeholder_free_def)

lemma items_single: "length (items graph) = 1 \<Longrightarrow> \<exists>k dp g. graph = Graph [(k, dp, g)]"
  by (cases graph) (auto simp: length_Suc_conv)

section \<open>The reduction to the lowest common ancestor\<close>

text \<open>The reduction never fails: it returns a table that extends the one it was given
  and holds the returned result under the node's key.\<close>

lemma get_lca_ok:
  "\<exists>memo' r. get_lca_from_graph nr memo k dp g = Inr (memo', r)
      \<and> memo \<subseteq>\<^sub>m memo' \<and> memo' k = Some r"
  "\<exists>memo' ps. get_lca_parents nr memo es = Inr (memo', ps) \<and> memo \<subseteq>\<^sub>m memo'"
proof (induction nr memo k dp g and nr memo es rule: get_lca_from_graph_get_lca_parents.induct)
  case (1 nr memo root_dp_id root_dp root_graph)
  show ?case
  proof (cases "memo root_dp_id")
    case (Some r)
    then show ?thesis by simp
  next
    case None
    show ?thesis
    proof (cases "root_dp_id \<in> nr")
      case True
      with None show ?thesis by (auto simp: map_le_def)
    next
      case False
      from 1[OF None False] obtain memo1 ps where
        p: "get_lca_parents nr (memo(root_dp_id \<mapsto> None)) root_graph = Inr (memo1, ps)"
        and le: "memo(root_dp_id \<mapsto> None) \<subseteq>\<^sub>m memo1" by blast
      from le have k1: "memo1 root_dp_id = Some None"
        by (auto simp: map_le_def dom_def split: if_splits)
      from le None have le2: "memo \<subseteq>\<^sub>m memo1(root_dp_id \<mapsto> v)" for v
        by (auto simp: map_le_def dom_def split: if_splits)
      from le None have le3: "memo \<subseteq>\<^sub>m memo1"
        by (auto simp: map_le_def dom_def split: if_splits)
      show ?thesis using None False p k1 le2 le3
        by (simp add: Let_def)
    qed
  qed
next
  case (2 nr memo)
  then show ?case by simp
next
  case (3 nr memo dp_id dp src_graph rest)
  from 3(1) obtain memo1 res where
    a: "get_lca_from_graph nr memo dp_id dp src_graph = Inr (memo1, res)"
    and le1: "memo \<subseteq>\<^sub>m memo1" by blast
  from 3(2)[OF a refl] obtain memo2 ps where
    b: "get_lca_parents nr memo1 rest = Inr (memo2, ps)" and le2: "memo1 \<subseteq>\<^sub>m memo2"
    by blast
  show ?case using a b map_le_trans[OF le1 le2] by simp
qed


lemma get_lca_unmarked:
  "nr = {} \<Longrightarrow> only_none memo \<Longrightarrow>
     \<exists>memo'. get_lca_from_graph nr memo k dp g = Inr (memo', None) \<and> only_none memo'"
  "nr = {} \<Longrightarrow> only_none memo \<Longrightarrow>
     \<exists>memo'. get_lca_parents nr memo es = Inr (memo', []) \<and> only_none memo'"
proof (induction nr memo k dp g and nr memo es rule: get_lca_from_graph_get_lca_parents.induct)
  case (1 nr memo root_dp_id root_dp root_graph)
  show ?case
  proof (cases "memo root_dp_id")
    case (Some r)
    with 1(3) have "r = None" by (simp add: only_none_def)
    with Some 1(3) show ?thesis by simp
  next
    case None
    have f: "root_dp_id \<notin> nr" using 1(2) by simp
    have on: "only_none (memo(root_dp_id \<mapsto> None))"
      using 1(3) by (simp add: only_none_def)
    from 1(1)[OF None f 1(2) on] obtain memo1 where
      p: "get_lca_parents nr (memo(root_dp_id \<mapsto> None)) root_graph = Inr (memo1, [])"
      and on1: "only_none memo1" by blast
    from get_lca_ok(2)[of nr "memo(root_dp_id \<mapsto> None)" root_graph] p
    have "memo(root_dp_id \<mapsto> None) \<subseteq>\<^sub>m memo1" by simp
    then have k1: "memo1 root_dp_id = Some None"
      by (auto simp: map_le_def dom_def split: if_splits)
    show ?thesis using None f p k1 on1 by simp
  qed
next
  case (2 nr memo)
  then show ?case by simp
next
  case (3 nr memo dp_id dp src_graph rest)
  from 3(1)[OF 3(3) 3(4)] obtain memo1 where
    a: "get_lca_from_graph nr memo dp_id dp src_graph = Inr (memo1, None)"
    and on1: "only_none memo1" by blast
  from 3(2)[OF a refl 3(3) on1] obtain memo2 where
    b: "get_lca_parents nr memo1 rest = Inr (memo2, [])" and on2: "only_none memo2"
    by blast
  show ?case using a b on2 by simp
qed

lemma mark_step_no_marker:
  "\<not> is_round_robin_sharding dp \<Longrightarrow> mark_step list_dps traverse_dps dp s = s"
  by (simp add: mark_step_def)

lemma fold_mark_step_no_marker:
  "\<forall>dp \<in> set ds. \<not> is_round_robin_sharding dp \<Longrightarrow>
     fold (mark_step list_dps traverse_dps) ds s = s"
  by (induction ds arbitrary: s) (simp_all add: mark_step_no_marker)

text \<open>
  C6.  When no node of the graph is a non-replicable marker, the cut point is none.  The
  flattening traversal is any function that lists only nodes of the graph.
\<close>

theorem no_marker_no_cut_point:
  assumes "length (items graph) = 1"
    and "set (list_dps graph) \<subseteq> set (all_dps graph)"
    and "\<forall>dp \<in> set (all_dps graph). \<not> is_round_robin_sharding dp"
  shows "find_lca_non_replicable_dp list_dps traverse_dps graph = Inr None"
proof -
  from assms(1) obtain k dp g where g: "graph = Graph [(k, dp, g)]"
    using items_single by blast
  from assms(2,3) have "\<forall>dp \<in> set (list_dps graph). \<not> is_round_robin_sharding dp"
    by blast
  then have nr: "mark_non_replicable list_dps traverse_dps graph = {}"
    by (simp add: mark_non_replicable_def fold_mark_step_no_marker)
  have "only_none Map.empty" by (simp add: only_none_def)
  from get_lca_unmarked(1)[OF refl this, of k dp g] obtain memo' where
    "get_lca_from_graph {} Map.empty k dp g = Inr (memo', None)" by blast
  then show ?thesis using nr g by (simp add: find_lca_non_replicable_dp_def)
qed

theorem no_marker_no_cut_point_witness:
  "length (items ex_plain) = 1
   \<and> set (flatten_graph ex_plain) \<subseteq> set (all_dps ex_plain)
   \<and> list_all (\<lambda>dp. \<not> is_round_robin_sharding dp) (all_dps ex_plain)
   \<and> compute_cut_point ex_plain = Inr None"
proof -
  have 1: "length (items ex_plain) = 1" by (simp add: ex_plain_def)
  have 2: "set (flatten_graph ex_plain) \<subseteq> set (all_dps ex_plain)"
    by (simp add: ex_plain_def flatten_graph_def all_dps_def)
  have 3: "\<forall>dp \<in> set (all_dps ex_plain). \<not> is_round_robin_sharding dp"
    by (simp add: ex_plain_def all_dps_def is_round_robin_sharding_def)
  from no_marker_no_cut_point[where graph = ex_plain and list_dps = flatten_graph
      and traverse_dps = "predecessor_graph ex_plain", OF 1 2 3] 1 2 3
  show ?thesis by (simp add: compute_cut_point_def list_all_iff)
qed

text \<open>
  C4.  Two chains \<open>A\<close> and \<open>B\<close> that meet in the root \<open>C\<close>, with the identities of
  \<open>A\<close> and \<open>B\<close> both in the non-replicable set: the cut point is \<open>C\<close>, and neither
  \<open>A\<close> nor \<open>B\<close>.
\<close>

theorem merge_point_is_cut_point:
  assumes "graph = Graph [(py_id C, C, Graph [(py_id A, A, ga), (py_id B, B, gb)])]"
    and "py_id A \<in> mark_non_replicable list_dps traverse_dps graph"
    and "py_id B \<in> mark_non_replicable list_dps traverse_dps graph"
    and "py_id A \<noteq> py_id B" and "py_id C \<noteq> py_id A" and "py_id C \<noteq> py_id B"
  shows "find_lca_non_replicable_dp list_dps traverse_dps graph = Inr (Some C)
    \<and> find_lca_non_replicable_dp list_dps traverse_dps graph \<noteq> Inr (Some A)
    \<and> find_lca_non_replicable_dp list_dps traverse_dps graph \<noteq> Inr (Some B)"
proof -
  from assms(4,5,6) have ne: "A \<noteq> B" "C \<noteq> A" "C \<noteq> B" by auto
  have "find_lca_non_replicable_dp list_dps traverse_dps graph = Inr (Some C)"
    using assms(2,3,4,5,6) ne unfolding assms(1)
    by (cases ga; cases gb) (simp add: find_lca_non_replicable_dp_def Let_def)
  with ne show ?thesis by simp
qed

lemma ex_merge_marked:
  "mark_non_replicable flatten_graph (predecessor_graph ex_merge) ex_merge = {1, 2}"
  by (simp add: ex_merge_def mark_non_replicable_def mark_step_def mark_parents_def
      flatten_graph_def predecessor_graph_def all_dps_def is_round_robin_sharding_def insert_commute)

theorem merge_point_is_cut_point_witness:
  "compute_cut_point ex_merge = Inr (Some (DataPipe 3 ShardingRoundRobinDispatcher))
   \<and> compute_cut_point ex_merge \<noteq> Inr (Some (DataPipe 1 OtherIterDataPipe))
   \<and> compute_cut_point ex_merge \<noteq> Inr (Some (DataPipe 2 OtherIterDataPipe))
   \<and> 1 \<in> mark_non_replicable flatten_graph (predecessor_graph ex_merge) ex_merge
   \<and> 2 \<in> mark_non_replicable flatten_graph (predecessor_graph ex_merge) ex_merge"
  using merge_point_is_cut_point[where graph = ex_merge
      and C = "DataPipe 3 ShardingRoundRobinDispatcher"
      and A = "DataPipe 1 OtherIterDataPipe" and ga = "Graph []"
      and B = "DataPipe 2 OtherIterDataPipe" and gb = "Graph []"
      and list_dps = flatten_graph and traverse_dps = "predecessor_graph ex_merge"]
  by (simp add: ex_merge_marked compute_cut_point_def) (simp add: ex_merge_def)

text \<open>
  C1.  A node that is neither memoised nor in the non-replicable set, and whose
  predecessors yield a non-empty list of outcomes: when the list has one element, or all
  its elements are the same node, that node is recorded for the current node and returned;
  when two of its elements differ, the current node is recorded and returned.
\<close>

theorem lca_reduction_step:
  assumes "memo root_dp_id = None" and "root_dp_id \<notin> nr"
    and "get_lca_parents nr (memo(root_dp_id \<mapsto> None)) root_graph = Inr (memo1, ps)"
    and "ps \<noteq> []"
  shows "(length ps = 1 \<or> (\<forall>dp \<in> set ps. dp = hd ps) \<longrightarrow>
            get_lca_from_graph nr memo root_dp_id root_dp (Graph root_graph)
              = Inr (memo1(root_dp_id \<mapsto> Some (hd ps)), Some (hd ps)))
       \<and> ((\<exists>p \<in> set ps. \<exists>q \<in> set ps. p \<noteq> q) \<longrightarrow>
            get_lca_from_graph nr memo root_dp_id root_dp (Graph root_graph)
              = Inr (memo1(root_dp_id \<mapsto> Some root_dp), Some root_dp))"
proof -
  have one: "length ps = 1 \<Longrightarrow> \<forall>dp \<in> set ps. dp = hd ps"
    by (cases ps) auto
  have two: "(\<exists>p \<in> set ps. \<exists>q \<in> set ps. p \<noteq> q) \<longleftrightarrow> \<not> (\<forall>dp \<in> set ps. dp = hd ps)"
  proof
    assume "\<exists>p \<in> set ps. \<exists>q \<in> set ps. p \<noteq> q"
    then obtain p q where "p \<in> set ps" "q \<in> set ps" "p \<noteq> q" by blast
    then show "\<not> (\<forall>dp \<in> set ps. dp = hd ps)" by metis
  next
    assume "\<not> (\<forall>dp \<in> set ps. dp = hd ps)"
    then obtain d where "d \<in> set ps" "d \<noteq> hd ps" by blast
    moreover have "hd ps \<in> set ps" using assms(4) by simp
    ultimately show "\<exists>p \<in> set ps. \<exists>q \<in> set ps. p \<noteq> q" by blast
  qed
  have eval: "get_lca_from_graph nr memo root_dp_id root_dp (Graph root_graph)
      = (if \<forall>dp \<in> set ps. dp = hd ps
         then Inr (memo1(root_dp_id \<mapsto> Some (hd ps)), Some (hd ps))
         else Inr (memo1(root_dp_id \<mapsto> Some root_dp), Some root_dp))"
    using assms one by (auto simp: Let_def)
  show ?thesis
  proof (intro conjI impI)
    assume "length ps = 1 \<or> (\<forall>dp \<in> set ps. dp = hd ps)"
    with one have "\<forall>dp \<in> set ps. dp = hd ps" by blast
    then show "get_lca_from_graph nr memo root_dp_id root_dp (Graph root_graph)
              = Inr (memo1(root_dp_id \<mapsto> Some (hd ps)), Some (hd ps))"
      unfolding eval by simp
  next
    assume "\<exists>p \<in> set ps. \<exists>q \<in> set ps. p \<noteq> q"
    with two have c: "(\<forall>dp \<in> set ps. dp = hd ps) = False" by blast
    show "get_lca_from_graph nr memo root_dp_id root_dp (Graph root_graph)
              = Inr (memo1(root_dp_id \<mapsto> Some root_dp), Some root_dp)"
      unfolding eval c by simp
  qed
qed

theorem lca_reduction_step_witness:
  "get_lca_from_graph {1, 2} Map.empty 3 (DataPipe 3 OtherIterDataPipe)
       (Graph [(1, DataPipe 1 OtherIterDataPipe, Graph []), (2, DataPipe 2 OtherIterDataPipe, Graph [])])
     = Inr ([3 \<mapsto> None, 1 \<mapsto> Some (DataPipe 1 OtherIterDataPipe),
             2 \<mapsto> Some (DataPipe 2 OtherIterDataPipe), 3 \<mapsto> Some (DataPipe 3 OtherIterDataPipe)],
            Some (DataPipe 3 OtherIterDataPipe))
   \<and> get_lca_from_graph {1} Map.empty 3 (DataPipe 3 OtherIterDataPipe)
       (Graph [(1, DataPipe 1 OtherIterDataPipe, Graph []), (2, DataPipe 2 OtherIterDataPipe, Graph [])])
     = Inr ([3 \<mapsto> None, 1 \<mapsto> Some (DataPipe 1 OtherIterDataPipe), 2 \<mapsto> None,
             3 \<mapsto> Some (DataPipe 1 OtherIterDataPipe)],
            Some (DataPipe 1 OtherIterDataPipe))"
proof -
  have a: "get_lca_parents {1, 2} (Map.empty(3 \<mapsto> None))
       [(1, DataPipe 1 OtherIterDataPipe, Graph []), (2, DataPipe 2 OtherIterDataPipe, Graph [])]
     = Inr ([3 \<mapsto> None, 1 \<mapsto> Some (DataPipe 1 OtherIterDataPipe),
             2 \<mapsto> Some (DataPipe 2 OtherIterDataPipe)],
            [DataPipe 1 OtherIterDataPipe, DataPipe 2 OtherIterDataPipe])"
    by simp
  have b: "get_lca_parents {1} (Map.empty(3 \<mapsto> None))
       [(1, DataPipe 1 OtherIterDataPipe, Graph []), (2, DataPipe 2 OtherIterDataPipe, Graph [])]
     = Inr ([3 \<mapsto> None, 1 \<mapsto> Some (DataPipe 1 OtherIterDataPipe), 2 \<mapsto> None],
            [DataPipe 1 OtherIterDataPipe])"
    by simp
  from lca_reduction_step[OF _ _ a, of "DataPipe 3 OtherIterDataPipe"]
       lca_reduction_step[OF _ _ b, of "DataPipe 3 OtherIterDataPipe"]
  show ?thesis by simp
qed

section \<open>The extraction of replicable branches\<close>

lemma append_replicable_ok:
  "fst ` set es \<subseteq> dom memo \<Longrightarrow>
     \<exists>new. append_replicable memo dps es = Inr (dps @ new)"
proof (induction es arbitrary: dps)
  case Nil
  then show ?case by simp
next
  case (Cons e es)
  obtain k d s where e: "e = (k, d, s)" by (cases e)
  with Cons.prems obtain b where b: "memo k = Some b" by auto
  from Cons.prems have "fst ` set es \<subseteq> dom memo" by simp
  from Cons.IH[OF this, of "if b then dps @ [d] else dps"] obtain new where
    "append_replicable memo (if b then dps @ [d] else dps) es = Inr ((if b then dps @ [d] else dps) @ new)"
    by blast
  then show ?case using e b by (cases b) auto
qed

lemma is_replicable_ok:
  "\<exists>memo' new b. is_replicable_graph st k dp g = Inr ((memo', snd st @ new), b)
      \<and> fst st \<subseteq>\<^sub>m memo' \<and> memo' k = Some b"
  "\<exists>memo' new. visit_parents st k es = Inr (memo', snd st @ new)
      \<and> (\<forall>j. j \<noteq> k \<longrightarrow> j \<in> dom (fst st) \<longrightarrow> memo' j = fst st j)
      \<and> (fst st k = Some False \<longrightarrow> memo' k = Some False)
      \<and> dom (fst st) \<subseteq> dom memo'
      \<and> fst ` set es \<subseteq> dom memo'"
proof (induction st k dp g and st k es rule: is_replicable_graph_visit_parents.induct)
  case (1 memo dps root_dp_id root_dp root_graph)
  show ?case
  proof (cases "memo root_dp_id")
    case (Some b)
    then show ?thesis by simp
  next
    case None
    show ?thesis
    proof (cases "py_type root_dp = DummyIterDataPipe")
      case True
      with None show ?thesis by (auto simp: map_le_def)
    next
      case False
      from 1[OF None False] obtain memo1 new where
        v: "visit_parents (memo(root_dp_id \<mapsto> True), dps) root_dp_id root_graph
              = Inr (memo1, dps @ new)"
        and keep: "\<forall>j. j \<noteq> root_dp_id \<longrightarrow> j \<in> dom (memo(root_dp_id \<mapsto> True))
                    \<longrightarrow> memo1 j = (memo(root_dp_id \<mapsto> True)) j"
        and d: "dom (memo(root_dp_id \<mapsto> True)) \<subseteq> dom memo1"
        and ks: "fst ` set root_graph \<subseteq> dom memo1"
        unfolding fst_conv snd_conv by blast
      from d obtain b where b: "memo1 root_dp_id = Some b" by auto
      have le: "memo \<subseteq>\<^sub>m memo1"
        unfolding map_le_def
      proof
        fix a assume "a \<in> dom memo"
        with None have "a \<noteq> root_dp_id" "a \<in> dom (memo(root_dp_id \<mapsto> True))" by auto
        with keep have "memo1 a = (memo(root_dp_id \<mapsto> True)) a" by blast
        with \<open>a \<noteq> root_dp_id\<close> show "memo a = memo1 a" by simp
      qed
      from append_replicable_ok[OF ks, of "dps @ new"] obtain new2 where
        a: "append_replicable memo1 (dps @ new) root_graph = Inr ((dps @ new) @ new2)" by blast
      show ?thesis using None False v b le a by (cases b) auto
    qed
  qed
next
  case (2 st root_dp_id)
  show ?case by (cases st) simp
next
  case (3 st root_dp_id dp_id dp src_graph rest)
  from 3(1) obtain memo1 new1 b where
    a: "is_replicable_graph st dp_id dp src_graph = Inr ((memo1, snd st @ new1), b)"
    and le1: "fst st \<subseteq>\<^sub>m memo1" and k1: "memo1 dp_id = Some b" by blast
  let ?st1 = "((if \<not> b then memo1(root_dp_id \<mapsto> False) else memo1), snd st @ new1)"
  from 3(2)[OF a refl refl, of ] obtain memo2 new2 where
    v: "visit_parents ?st1 root_dp_id rest = Inr (memo2, snd ?st1 @ new2)"
    and keep: "\<forall>j. j \<noteq> root_dp_id \<longrightarrow> j \<in> dom (fst ?st1) \<longrightarrow> memo2 j = fst ?st1 j"
    and f: "fst ?st1 root_dp_id = Some False \<longrightarrow> memo2 root_dp_id = Some False"
    and d: "dom (fst ?st1) \<subseteq> dom memo2"
    and ks: "fst ` set rest \<subseteq> dom memo2"
    by blast
  have dd: "dom (fst st) \<subseteq> dom (fst ?st1)" "dp_id \<in> dom (fst ?st1)"
    using le1 k1 by (auto simp: map_le_def dom_def)
  have r: "visit_parents st root_dp_id ((dp_id, dp, src_graph) # rest) = Inr (memo2, snd st @ new1 @ new2)"
    using a v by simp
  have p1: "\<forall>j. j \<noteq> root_dp_id \<longrightarrow> j \<in> dom (fst st) \<longrightarrow> memo2 j = fst st j"
  proof (intro allI impI)
    fix j assume j: "j \<noteq> root_dp_id" "j \<in> dom (fst st)"
    with dd have "j \<in> dom (fst ?st1)" by blast
    with keep j have "memo2 j = fst ?st1 j" by blast
    also have "\<dots> = memo1 j" using j by simp
    also have "\<dots> = fst st j" using le1 j by (simp add: map_le_def)
    finally show "memo2 j = fst st j" .
  qed
  have p2: "fst st root_dp_id = Some False \<longrightarrow> memo2 root_dp_id = Some False"
    using f le1 by (cases b) (auto simp: map_le_def dom_def)
  have p3: "dom (fst st) \<subseteq> dom memo2" using dd d by blast
  have p4: "fst ` set ((dp_id, dp, src_graph) # rest) \<subseteq> dom memo2"
    using ks dd d by auto
  show ?case using r p1 p2 p3 p4 by blast
qed


lemma is_replicable_dummy:
  "memo k = None \<Longrightarrow> py_type dp = DummyIterDataPipe \<Longrightarrow>
     is_replicable_graph (memo, dps) k dp g = Inr ((memo(k \<mapsto> False), dps), False)"
  by (cases g) simp

lemma replicable_subtree:
  "placeholder_free dp g \<Longrightarrow> \<forall>j \<in> set (k # all_keys g). fst st j \<noteq> Some False \<Longrightarrow>
     \<exists>memo'. is_replicable_graph st k dp g = Inr ((memo', snd st), True)
       \<and> fst st \<subseteq>\<^sub>m memo' \<and> no_new_false (fst st) memo'
       \<and> dom memo' \<subseteq> dom (fst st) \<union> set (k # all_keys g)"
  "placeholder_free dp0 (Graph es) \<Longrightarrow> \<forall>j \<in> set (all_keys (Graph es)). fst st j \<noteq> Some False \<Longrightarrow>
     \<exists>memo'. visit_parents st k es = Inr (memo', snd st)
       \<and> fst st \<subseteq>\<^sub>m memo' \<and> no_new_false (fst st) memo'
       \<and> dom memo' \<subseteq> dom (fst st) \<union> set (all_keys (Graph es))"
proof (induction st k dp g and st k es arbitrary: and dp0 rule: is_replicable_graph_visit_parents.induct)
  case (1 memo dps root_dp_id root_dp root_graph)
  have nf: "memo root_dp_id \<noteq> Some False" using 1(3) by simp
  show ?case
  proof (cases "memo root_dp_id")
    case (Some b)
    with nf have "b" by auto
    with Some show ?thesis by (auto simp: no_new_false_def)
  next
    case None
    from 1(2) have nd: "py_type root_dp \<noteq> DummyIterDataPipe"
      by (simp add: placeholder_free_def)
    have k: "\<forall>j \<in> set (all_keys (Graph root_graph)). fst (memo(root_dp_id \<mapsto> True), dps) j \<noteq> Some False"
      using 1(3) by simp
    from 1(1)[OF None nd 1(2) k] obtain memo1 where
      v: "visit_parents (memo(root_dp_id \<mapsto> True), dps) root_dp_id root_graph = Inr (memo1, dps)"
      and le: "memo(root_dp_id \<mapsto> True) \<subseteq>\<^sub>m memo1"
      and nn: "no_new_false (memo(root_dp_id \<mapsto> True)) memo1"
      and d: "dom memo1 \<subseteq> dom (memo(root_dp_id \<mapsto> True)) \<union> set (all_keys (Graph root_graph))"
      unfolding fst_conv snd_conv by blast
    from le have m1: "memo1 root_dp_id = Some True" by (rule map_le_upd_same)
    from le None have le': "memo \<subseteq>\<^sub>m memo1" by (rule map_le_upd_fresh)
    from nn None have nn': "no_new_false memo memo1"
      by (auto simp: no_new_false_def split: if_splits)
    show ?thesis using None nd v m1 le' nn' d by auto
  qed
next
  case (2 st root_dp_id)
  show ?case by (cases st) (simp add: no_new_false_def)
next
  case (3 st root_dp_id dp_id dp src_graph rest)
  from 3(3) have pf: "placeholder_free dp src_graph" "placeholder_free dp0 (Graph rest)"
    by (simp_all add: placeholder_free_Cons)
  from 3(4) have k1: "\<forall>j \<in> set (dp_id # all_keys src_graph). fst st j \<noteq> Some False"
    and k2: "\<forall>j \<in> set (all_keys (Graph rest)). fst st j \<noteq> Some False" by auto
  from 3(1)[OF pf(1) k1] obtain memo1 where
    a: "is_replicable_graph st dp_id dp src_graph = Inr ((memo1, snd st), True)"
    and le1: "fst st \<subseteq>\<^sub>m memo1" and nn1: "no_new_false (fst st) memo1"
    and d1: "dom memo1 \<subseteq> dom (fst st) \<union> set (dp_id # all_keys src_graph)" by blast
  have k2': "\<forall>j \<in> set (all_keys (Graph rest)). fst (memo1, snd st) j \<noteq> Some False"
    using k2 nn1 by (auto simp: no_new_false_def)
  from 3(2)[OF a refl refl, simplified, OF pf(2) k2'[simplified]] obtain memo2 where
    v: "visit_parents (memo1, snd st) root_dp_id rest = Inr (memo2, snd st)"
    and le2: "memo1 \<subseteq>\<^sub>m memo2" and nn2: "no_new_false memo1 memo2"
    and d2: "dom memo2 \<subseteq> dom memo1 \<union> set (all_keys (Graph rest))" by auto
  have "visit_parents st root_dp_id ((dp_id, dp, src_graph) # rest) = Inr (memo2, snd st)"
    using a v by simp
  moreover have "fst st \<subseteq>\<^sub>m memo2" using le1 le2 by (rule map_le_trans)
  moreover have "no_new_false (fst st) memo2" using nn1 nn2 by (auto simp: no_new_false_def)
  moreover have "dom memo2 \<subseteq> dom (fst st) \<union> set (all_keys (Graph ((dp_id, dp, src_graph) # rest)))"
    using d1 d2 by (simp add: subset_iff) blast
  ultimately show ?case by blast
qed

text \<open>
  C7.  The root has the two predecessors \<open>X\<close>, whose only predecessor is a placeholder,
  and \<open>Y\<close>, whose closure holds no placeholder and none of the root, \<open>X\<close> and the
  placeholder.  In either order of the two, the result is the list \<open>[Y]\<close>: without the
  root and without the placeholder.
\<close>

theorem sibling_branch_is_listed:
  assumes g: "graph = Graph [(py_id R, R,
                 Graph [(py_id X, X, Graph [(py_id P, P, gp)]), (py_id Y, Y, gy)])]
              \<or> graph = Graph [(py_id R, R,
                 Graph [(py_id Y, Y, gy), (py_id X, X, Graph [(py_id P, P, gp)])])]"
    and types: "py_type P = DummyIterDataPipe" "py_type R \<noteq> DummyIterDataPipe"
               "py_type X \<noteq> DummyIterDataPipe"
    and free: "placeholder_free Y gy"
    and ids: "distinct [py_id R, py_id X, py_id P, py_id Y]"
    and apart: "set [py_id R, py_id X, py_id P] \<inter> set (all_keys gy) = {}"
  shows "find_replicable_branches graph = Inr [Y] \<and> R \<noteq> Y \<and> P \<noteq> Y"
proof -
  let ?r = "py_id R" and ?x = "py_id X" and ?p = "py_id P" and ?y = "py_id Y"
  have ne: "R \<noteq> Y" "P \<noteq> Y" using ids by auto
  from g show ?thesis
  proof
    assume g1: "graph = Graph [(?r, R, Graph [(?x, X, Graph [(?p, P, gp)]), (?y, Y, gy)])]"
    have x: "is_replicable_graph ([?r \<mapsto> True], []) ?x X (Graph [(?p, P, gp)])
               = Inr (([?r \<mapsto> True, ?x \<mapsto> True, ?p \<mapsto> False, ?x \<mapsto> False], []), False)"
      using ids types by (simp add: is_replicable_dummy)
    let ?m = "[?r \<mapsto> True, ?x \<mapsto> True, ?p \<mapsto> False, ?x \<mapsto> False, ?r \<mapsto> False]"
    have "\<forall>j \<in> set (?y # all_keys gy). fst (?m, []::DataPipe list) j \<noteq> Some False"
      using ids apart by auto
    from replicable_subtree(1)[OF free this] obtain memo' where
      y: "is_replicable_graph (?m, []) ?y Y gy = Inr ((memo', []), True)"
      and le: "?m \<subseteq>\<^sub>m memo'" by auto
    from is_replicable_ok(1)[of "(?m, [])" ?y Y gy] y have my: "memo' ?y = Some True" by auto
    from le have mr: "memo' ?r = Some False" by (rule map_le_upd_same)
    from le ids have mx: "memo' ?x = Some False"
      by (auto simp: map_le_def dom_def split: if_splits)
    have "find_replicable_branches graph = Inr [Y]"
      unfolding g1 find_replicable_branches_def using types ids x y my mr mx by simp
    with ne show ?thesis by simp
  next
    assume g2: "graph = Graph [(?r, R, Graph [(?y, Y, gy), (?x, X, Graph [(?p, P, gp)])])]"
    let ?m = "[?r \<mapsto> True]"
    have "\<forall>j \<in> set (?y # all_keys gy). fst (?m, []::DataPipe list) j \<noteq> Some False"
      by auto
    from replicable_subtree(1)[OF free this] obtain memo' where
      y: "is_replicable_graph (?m, []) ?y Y gy = Inr ((memo', []), True)"
      and le: "?m \<subseteq>\<^sub>m memo'"
      and d: "dom memo' \<subseteq> dom ?m \<union> set (?y # all_keys gy)" by auto
    from is_replicable_ok(1)[of "(?m, [])" ?y Y gy] y have my: "memo' ?y = Some True" by auto
    from d ids apart have fresh: "memo' ?x = None" "memo' ?p = None" by auto
    have x: "is_replicable_graph (memo', []) ?x X (Graph [(?p, P, gp)])
               = Inr ((memo'(?x \<mapsto> True, ?p \<mapsto> False, ?x \<mapsto> False), []), False)"
      using ids types fresh by (simp add: is_replicable_dummy)
    have mr: "memo' ?r = Some True" using le by (rule map_le_upd_same)
    have "is_replicable_graph (Map.empty, []) ?r R
            (Graph [(?y, Y, gy), (?x, X, Graph [(?p, P, gp)])])
          = Inr ((memo'(?x \<mapsto> True, ?p \<mapsto> False, ?x \<mapsto> False, ?r \<mapsto> False), [Y]), False)"
      apply (subst is_replicable_graph.simps)
      using types ids my mr fresh
      apply (simp add: x y del: is_replicable_graph.simps)
      done
    then have "find_replicable_branches graph = Inr [Y]"
      unfolding g2 find_replicable_branches_def by (simp del: is_replicable_graph.simps)
    with ne show ?thesis by simp
  qed
qed

theorem sibling_branch_is_listed_witness:
  "find_replicable_branches ex_sibling = Inr [DataPipe 3 OtherIterDataPipe]
   \<and> find_replicable_branches ex_sibling2 = Inr [DataPipe 3 OtherIterDataPipe]
   \<and> placeholder_free (DataPipe 3 OtherIterDataPipe) (Graph [(4, DataPipe 4 OtherIterDataPipe, Graph [])])"
proof -
  have f: "placeholder_free (DataPipe 3 OtherIterDataPipe) (Graph [(4, DataPipe 4 OtherIterDataPipe, Graph [])])"
    by (simp add: placeholder_free_def)
  from sibling_branch_is_listed[where graph = ex_sibling and R = "DataPipe 0 OtherIterDataPipe"
      and X = "DataPipe 1 OtherIterDataPipe" and P = "DataPipe 2 DummyIterDataPipe"
      and Y = "DataPipe 3 OtherIterDataPipe" and gp = "Graph []"
      and gy = "Graph [(4, DataPipe 4 OtherIterDataPipe, Graph [])]", OF _ _ _ _ f]
    sibling_branch_is_listed[where graph = ex_sibling2 and R = "DataPipe 0 OtherIterDataPipe"
      and X = "DataPipe 1 OtherIterDataPipe" and P = "DataPipe 2 DummyIterDataPipe"
      and Y = "DataPipe 3 OtherIterDataPipe" and gp = "Graph []"
      and gy = "Graph [(4, DataPipe 4 OtherIterDataPipe, Graph [])]", OF _ _ _ _ f]
  show ?thesis using f by (simp add: ex_sibling_def ex_sibling2_def)
qed

section \<open>Reference cycles\<close>




section \<open>The reduction over a store\<close>






section \<open>Branches on shared and cyclic graphs\<close>



section \<open>Branches of a tree-shaped graph\<close>
















section \<open>The marking step\<close>
















end
